theory Spec2Isabelle
  imports Main "HOL-Library.Sublist"
begin

section \<open>The HTTP request router of http/router.ts\<close>

text \<open>
  The theory embeds the class \<open>Router\<close> of \<^verbatim>\<open>src/http/router.ts\<close>: its three private
  fields as a record, its methods as functions of that record, every \<^verbatim>\<open>throw\<close> as a
  value of a sum type. The two public methods, \<open>handle\<close> and \<open>handler\<close>, return the
  router they leave behind next to their result, so that what a call does to the fields
  is part of the model.
\<close>

subsection \<open>Values of the platform: URL, Request, Response\<close>

text \<open>
  A parsed URL with an authority and no credentials (the Request constructor refuses a
  URL with credentials), by the components of the URL Standard's record: \<open>protocol\<close> is
  the scheme with its colon, \<open>hostname\<close> the serialised host, \<open>port\<close> the port in digits
  (empty when there is none), \<open>query\<close> and \<open>fragment\<close> are \<open>None\<close> when the URL has none,
  which differs from an empty one. \<open>href\<close> is what \<^verbatim>\<open>url.toString()\<close> serialises. The
  assignment \<^verbatim>\<open>url.pathname = p\<close> is the record update of \<open>pathname\<close>: the router assigns
  a normalised path of a parsed URL, which the setter's parser leaves as it is.
\<close>

record url =
  protocol :: string
  hostname :: string
  port :: string
  pathname :: string
  query :: "string option"
  fragment :: "string option"

definition query_fragment :: "url \<Rightarrow> string" where
  "query_fragment u =
     (case query u of None \<Rightarrow> [] | Some q \<Rightarrow> CHR ''?'' # q)
       @ (case fragment u of None \<Rightarrow> [] | Some f \<Rightarrow> CHR ''#'' # f)"

definition href :: "url \<Rightarrow> string" where
  "href u =
     protocol u @ ''//'' @ hostname u @ (if port u = [] then [] else '':'' @ port u)
       @ pathname u @ query_fragment u"

text \<open>
  A request carries its URL and its headers; \<^verbatim>\<open>headers.get(name)\<close> is the lookup in a
  map keyed by the lower-case header name, \<open>None\<close> for \<^verbatim>\<open>null\<close>.
\<close>

record request =
  url :: url
  headers :: "string \<rightharpoonup> string"

text \<open>\<^verbatim>\<open>new Response(body, { status, headers })\<close>: body (\<open>None\<close> for \<^verbatim>\<open>null\<close>), status, headers.\<close>

datatype response = Response "string option" nat "(string \<times> string) list"

text \<open>
  Modelled from the spec: \<^verbatim>\<open>ConnInfo\<close> is declared in native_server.ts, which is not among
  the sources; it is an opaque record of a local and a remote address (host name, port,
  transport), handed to the handler as it is.
\<close>

datatype netAddr = NetAddr string nat string

datatype connInfo = ConnInfo netAddr netAddr

text \<open>
  A handler maps the request and the connection information to a response. A handler
  that throws, or that calls into the router, is outside the router's contract
  and outside this model.
\<close>

type_synonym handler = "request \<Rightarrow> connInfo \<Rightarrow> response"

text \<open>The errors the router's code can raise, each with its message.\<close>

datatype error = Http string | TypeError string

text \<open>
  Modelled from the spec: http_status.ts is not among the sources. \<open>Status\<close> gives the two
  codes the router uses, \<open>STATUS_TEXT\<close> their reason phrases.
\<close>

definition Status_MovedPermanently :: nat where
  "Status_MovedPermanently = 301"

definition Status_NotFound :: nat where
  "Status_NotFound = 404"

definition STATUS_TEXT :: "nat \<rightharpoonup> string" where
  "STATUS_TEXT = [301 \<mapsto> ''Moved Permanently'', 404 \<mapsto> ''Not Found'']"

text \<open>
  What the router takes from outside the class: \<open>normalize\<close> of path/posix.ts and the
  host name that the platform's URL constructor parses out of a string,
  \<^verbatim>\<open>new URL(s).hostname\<close>, \<open>None\<close> when the constructor throws its TypeError. Both
  are parameters of the model.
\<close>

record platform =
  normalize :: "string \<Rightarrow> string"
  URL_hostname :: "string \<Rightarrow> string option"

subsection \<open>String and array primitives of the language\<close>

text \<open>\<^verbatim>\<open>s.at(-1)\<close> and \<^verbatim>\<open>s[0]\<close>: \<open>None\<close> is \<^verbatim>\<open>undefined\<close>, on the empty string.\<close>

definition at_last :: "string \<Rightarrow> char option" where
  "at_last s = (if s = [] then None else Some (last s))"

definition at_first :: "string \<Rightarrow> char option" where
  "at_first s = (case s of [] \<Rightarrow> None | c # _ \<Rightarrow> Some c)"

text \<open>\<^verbatim>\<open>s.startsWith(p)\<close>.\<close>

definition startsWith :: "string \<Rightarrow> string \<Rightarrow> bool" where
  "startsWith s p = prefix p s"

text \<open>\<^verbatim>\<open>xs.findIndex(P)\<close>: the index of the first element satisfying \<open>P\<close>, \<open>-1\<close> when there is none.\<close>

fun findIndex :: "('a \<Rightarrow> bool) \<Rightarrow> 'a list \<Rightarrow> int" where
  "findIndex P [] = - 1"
| "findIndex P (x # xs) =
     (if P x then 0
      else (let i = findIndex P xs in if i < 0 then - 1 else i + 1))"

text \<open>
  \<^verbatim>\<open>xs.splice(start, 0, x)\<close>: a negative \<open>start\<close> counts from the end of the array
  (and stops at 0), a \<open>start\<close> past the end is the end.
\<close>

definition splice_insert :: "int \<Rightarrow> 'a \<Rightarrow> 'a list \<Rightarrow> 'a list" where
  "splice_insert start x xs =
     (let len = int (length xs);
          actualStart = (if start < 0 then max (len + start) 0 else min start len)
      in take (nat actualStart) xs @ [x] @ drop (nat actualStart) xs)"

subsection \<open>The module's functions\<close>

definition ERROR_INVALID_ROUTE :: error where
  "ERROR_INVALID_ROUTE = Http ''Invalid route''"

text \<open>
  \<open>_getHostname\<close>: the Host header when it is there and not empty (an empty string is
  falsy), parsed as the authority of a URL, else the host name of the request's URL.
\<close>

definition getHostname :: "platform \<Rightarrow> (string \<rightharpoonup> string) \<Rightarrow> url \<Rightarrow> error + string" where
  "getHostname P hdrs u =
     (case hdrs ''host'' of
        None \<Rightarrow> Inr (hostname u)
      | Some hostHeader \<Rightarrow>
          if hostHeader = [] then Inr (hostname u)
          else (case URL_hostname P (''proto://'' @ hostHeader) of
                  None \<Rightarrow> Inl (TypeError ''Invalid URL'')
                | Some h \<Rightarrow> Inr h))"

definition redirectHandler :: "url \<Rightarrow> nat \<Rightarrow> handler" where
  "redirectHandler u status = (\<lambda>_ _. Response None status [(''location'', href u)])"

definition notFoundHandler :: handler where
  "notFoundHandler =
     (\<lambda>_ _. Response (STATUS_TEXT Status_NotFound) Status_NotFound
        [(''content-type'', ''text/plain; charset=utf-8''),
         (''x-content-type-options'', ''nosniff'')])"

subsection \<open>The class Router\<close>

record router =
  routeMap :: "string \<rightharpoonup> handler"
  orderedRoutes :: "string list"
  hosts :: bool

definition new_Router :: router where
  "new_Router = \<lparr>routeMap = Map.empty, orderedRoutes = [], hosts = False\<rparr>"

definition shouldRedirect :: "router \<Rightarrow> string \<Rightarrow> string \<Rightarrow> bool" where
  "shouldRedirect r host path =
     (let routes = [path, host @ path] in
      if list_ex (\<lambda>route. routeMap r route \<noteq> None) routes then False
      else
        let hasTrailingSlash = (at_last path = Some CHR ''/'') in
        if list_ex (\<lambda>route. routeMap r (route @ ''/'') \<noteq> None) routes
        then \<not> hasTrailingSlash
        else False)"

text \<open>The loop of \<open>#match\<close> over \<open>#orderedRoutes\<close>: the first registered route that is a prefix decides.\<close>

fun match_loop :: "(string \<rightharpoonup> handler) \<Rightarrow> string \<Rightarrow> string list \<Rightarrow> handler option" where
  "match_loop m route [] = None"
| "match_loop m route (registeredRoute # rest) =
     (if startsWith route registeredRoute then m registeredRoute
      else match_loop m route rest)"

definition match :: "router \<Rightarrow> string \<Rightarrow> handler option" where
  "match r route =
     (case routeMap r route of
        Some hdl \<Rightarrow> Some hdl
      | None \<Rightarrow> match_loop (routeMap r) route (orderedRoutes r))"

definition matchHandler :: "router \<Rightarrow> string \<Rightarrow> string \<Rightarrow> handler" where
  "matchHandler r host path =
     (let hdl = (if hosts r then match r (host @ path) else None) in
      case hdl of
        Some h \<Rightarrow> h
      | None \<Rightarrow> (case match r path of Some h \<Rightarrow> h | None \<Rightarrow> notFoundHandler))"

definition getHandler :: "platform \<Rightarrow> router \<Rightarrow> request \<Rightarrow> error + handler" where
  "getHandler P r req =
     (let requestUrl = url req in
      case getHostname P (headers req) requestUrl of
        Inl e \<Rightarrow> Inl e
      | Inr host \<Rightarrow>
          let path = normalize P (pathname requestUrl) in
          if shouldRedirect r host path
          then Inr (redirectHandler (requestUrl\<lparr>pathname := path @ ''/''\<rparr>) Status_MovedPermanently)
          else if path \<noteq> pathname requestUrl
          then Inr (redirectHandler (requestUrl\<lparr>pathname := path\<rparr>) Status_MovedPermanently)
          else Inr (matchHandler r host path))"

text \<open>
  \<open>Router.handler\<close>, the dispatch of one request: the result (the response, or the
  error thrown) and the router after the call.
\<close>

definition handler :: "platform \<Rightarrow> request \<Rightarrow> connInfo \<Rightarrow> router \<Rightarrow> (error + response) \<times> router" where
  "handler P req conn r =
     (case getHandler P r req of
        Inl e \<Rightarrow> (Inl e, r)
      | Inr hdl \<Rightarrow> (Inr (hdl req conn), r))"

text \<open>
  \<open>Router.handle\<close>, the registration of a route: both \<^verbatim>\<open>throw\<close>s come before the first
  assignment to a field.
\<close>

definition handle :: "string \<Rightarrow> handler \<Rightarrow> router \<Rightarrow> (error + unit) \<times> router" where
  "handle route hdl r =
     (if route = [] then (Inl ERROR_INVALID_ROUTE, r)
      else if routeMap r route \<noteq> None
      then (Inl (Http (''Route '' @ route @ '' already registered'')), r)
      else
        let r1 = r\<lparr>routeMap := (routeMap r)(route \<mapsto> hdl)\<rparr>;
            r2 = (if at_last route = Some CHR ''/''
                  then
                    let index = findIndex (\<lambda>orderedRoute. length orderedRoute < length route)
                                  (orderedRoutes r1)
                    in r1\<lparr>orderedRoutes := splice_insert index route (orderedRoutes r1)\<rparr>
                  else r1);
            r3 = (if at_first route \<noteq> Some CHR ''/'' then r2\<lparr>hosts := True\<rparr> else r2)
        in (Inr (), r3))"

text \<open>A sequence of \<open>handle\<close> calls on one router, stopping at the first that throws.\<close>

fun handle_all :: "(string \<times> handler) list \<Rightarrow> router \<Rightarrow> (error + unit) \<times> router" where
  "handle_all [] r = (Inr (), r)"
| "handle_all ((route, hdl) # rest) r =
     (case handle route hdl r of
        (Inl e, r') \<Rightarrow> (Inl e, r')
      | (Inr _, r') \<Rightarrow> handle_all rest r')"

subsection \<open>A concrete platform, for evaluating the router on concrete requests\<close>

text \<open>
  Modelled from the spec: path/posix.ts is not among the sources. \<open>normalize\<close>
  collapses \<open>.\<close> and \<open>..\<close> segments and repeated separators, keeps a leading and a
  trailing \<open>/\<close>, and gives \<open>.\<close> for a path that normalises to nothing.
\<close>

fun split_slash :: "string \<Rightarrow> string list" where
  "split_slash [] = [[]]"
| "split_slash (c # cs) =
     (if c = CHR ''/'' then [] # split_slash cs
      else (case split_slash cs of
              [] \<Rightarrow> [[c]]
            | seg # segs \<Rightarrow> (c # seg) # segs))"

text \<open>The segments kept so far are a stack, the last one on top.\<close>

fun normalizeSegments :: "bool \<Rightarrow> string list \<Rightarrow> string list \<Rightarrow> string list" where
  "normalizeSegments allowAboveRoot st [] = rev st"
| "normalizeSegments allowAboveRoot st (seg # segs) =
     (if seg = [] \<or> seg = ''.'' then normalizeSegments allowAboveRoot st segs
      else if seg = ''..'' then
        (case st of
           [] \<Rightarrow> normalizeSegments allowAboveRoot (if allowAboveRoot then [''..''] else []) segs
         | lastSeg # below \<Rightarrow>
             if lastSeg = ''..''
             then normalizeSegments allowAboveRoot (if allowAboveRoot then ''..'' # st else st) segs
             else normalizeSegments allowAboveRoot below segs)
      else normalizeSegments allowAboveRoot (seg # st) segs)"

definition join_slash :: "string list \<Rightarrow> string" where
  "join_slash segs =
     (case segs of [] \<Rightarrow> [] | s # ss \<Rightarrow> s @ concat (map (\<lambda>t. CHR ''/'' # t) ss))"

definition posix_normalize :: "string \<Rightarrow> string" where
  "posix_normalize path =
     (if path = [] then ''.''
      else
        let isAbsolute = (at_first path = Some CHR ''/'');
            trailingSeparator = (at_last path = Some CHR ''/'');
            p = join_slash (normalizeSegments (\<not> isAbsolute) [] (split_slash path));
            p1 = (if p = [] \<and> \<not> isAbsolute then ''.'' else p);
            p2 = (if p1 \<noteq> [] \<and> trailingSeparator then p1 @ ''/'' else p1)
        in if isAbsolute then CHR ''/'' # p2 else p2)"

text \<open>
  The host name of \<^verbatim>\<open>new URL(s)\<close> for the strings \<open>_getHostname\<close> builds, \<open>proto://\<close>
  followed by the Host header, after the URL Standard's parser for a scheme that is not
  special; \<open>None\<close> is the TypeError of the constructor. A header value is a byte string:
  each \<open>char\<close> stands for the code point of its number, up to U+00FF. The value for a
  string that does not start with \<open>proto://\<close> is never asked for by the router and is
  \<open>None\<close> here.
\<close>

definition forbidden_host_code_point :: "char \<Rightarrow> bool" where
  "forbidden_host_code_point c \<longleftrightarrow>
     List.member
       [CHR 0x00, CHR 0x09, CHR 0x0A, CHR 0x0D, CHR 0x20, CHR ''#'', CHR ''/'', CHR '':'',
        CHR ''<'', CHR ''>'', CHR ''?'', CHR ''@'', CHR ''['', CHR 0x5C, CHR '']'', CHR ''^'',
        CHR ''|''] c"

definition c0_control_or_space :: "char \<Rightarrow> bool" where
  "c0_control_or_space c \<longleftrightarrow> (of_char c :: nat) \<le> 0x20"

definition ascii_tab_or_newline :: "char \<Rightarrow> bool" where
  "ascii_tab_or_newline c \<longleftrightarrow> List.member [CHR 0x09, CHR 0x0A, CHR 0x0D] c"

definition is_ascii_digit :: "char \<Rightarrow> bool" where
  "is_ascii_digit c \<longleftrightarrow> 48 \<le> (of_char c :: nat) \<and> (of_char c :: nat) \<le> 57"

definition is_ascii_hex_digit :: "char \<Rightarrow> bool" where
  "is_ascii_hex_digit c \<longleftrightarrow>
     is_ascii_digit c \<or> (65 \<le> (of_char c :: nat) \<and> (of_char c :: nat) \<le> 70)
       \<or> (97 \<le> (of_char c :: nat) \<and> (of_char c :: nat) \<le> 102)"

definition hex_value :: "char \<Rightarrow> nat" where
  "hex_value c =
     (let n = (of_char c :: nat) in
      if n \<le> 57 then n - 48 else if n \<le> 70 then n - 55 else n - 87)"

text \<open>
  The UTF-8 percent-encoding of a code point up to U+00FF with the C0 control
  percent-encode set: C0 controls and everything above \<open>~\<close> are encoded, a code point from
  U+0080 on through its two UTF-8 bytes.
\<close>

definition upper_hex_digit :: "nat \<Rightarrow> char" where
  "upper_hex_digit n = ''0123456789ABCDEF'' ! n"

definition lower_hex_digit :: "nat \<Rightarrow> char" where
  "lower_hex_digit n = ''0123456789abcdef'' ! n"

definition percent_encode_byte :: "nat \<Rightarrow> string" where
  "percent_encode_byte b = [CHR ''%'', upper_hex_digit (b div 16), upper_hex_digit (b mod 16)]"

definition utf8_percent_encode_c0 :: "char \<Rightarrow> string" where
  "utf8_percent_encode_c0 c =
     (let n = (of_char c :: nat) in
      if 0x20 \<le> n \<and> n \<le> 0x7E then [c]
      else if n < 0x80 then percent_encode_byte n
      else percent_encode_byte (0xC0 + n div 64) @ percent_encode_byte (0x80 + n mod 64))"

fun digits_value :: "nat \<Rightarrow> string \<Rightarrow> nat" where
  "digits_value acc [] = acc"
| "digits_value acc (c # cs) = digits_value (10 * acc + (of_char c - 48)) cs"

text \<open>
  The IPv6 parser. An IPv4 tail is four decimal numbers up to 255 separated by dots, none
  with a leading zero, making two pieces; it runs to the end of the input.
\<close>

fun split_at :: "char \<Rightarrow> string \<Rightarrow> string list" where
  "split_at sep [] = [[]]"
| "split_at sep (c # cs) =
     (if c = sep then [] # split_at sep cs
      else (case split_at sep cs of
              [] \<Rightarrow> [[c]]
            | seg # segs \<Rightarrow> (c # seg) # segs))"

definition ipv4_piece :: "string \<Rightarrow> nat option" where
  "ipv4_piece ds =
     (if ds = [] \<or> \<not> list_all is_ascii_digit ds then None
      else if 1 < length ds \<and> hd ds = CHR ''0'' then None
      else if 255 < digits_value 0 ds then None
      else Some (digits_value 0 ds))"

definition ipv4_in_ipv6 :: "string \<Rightarrow> nat list option" where
  "ipv4_in_ipv6 s =
     (case map ipv4_piece (split_at CHR ''.'' s) of
        [Some a, Some b, Some c, Some d] \<Rightarrow> Some [a * 0x100 + b, c * 0x100 + d]
      | _ \<Rightarrow> None)"

text \<open>
  The parser's main loop, by the pieces read so far (the piece index is their number) and
  the piece index of the compression, over what is left of the input.
\<close>

function ipv6_pieces :: "nat list \<Rightarrow> nat option \<Rightarrow> string \<Rightarrow> (nat list \<times> nat option) option" where
  "ipv6_pieces pieces compress [] = Some (pieces, compress)"
| "ipv6_pieces pieces compress (c # cs) =
     (if length pieces = 8 then None
      else if c = CHR '':'' then
        (if compress \<noteq> None then None
         else ipv6_pieces (pieces @ [0]) (Some (length pieces + 1)) cs)
      else
        let digits = takeWhile is_ascii_hex_digit (take 4 (c # cs));
            val = foldl (\<lambda>v d. v * 0x10 + hex_value d) 0 digits;
            rest = drop (length digits) (c # cs)
        in case rest of
             [] \<Rightarrow> Some (pieces @ [val], compress)
           | d # rest' \<Rightarrow>
               if d = CHR ''.'' then
                 (if digits = [] then None
                  else if 6 < length pieces then None
                  else (case ipv4_in_ipv6 (c # cs) of
                          None \<Rightarrow> None
                        | Some two \<Rightarrow> Some (pieces @ two, compress)))
               else if d = CHR '':'' then
                 (if rest' = [] then None else ipv6_pieces (pieces @ [val]) compress rest')
               else None)"
  by pat_completeness auto
termination
proof (relation "measure (\<lambda>(pieces, compress, s). length s)", goal_cases)
  case 1
  then show ?case by simp
next
  case (2 pieces compress c cs)
  then show ?case by simp
next
  case (3 pieces compress c cs digits val rest d rest')
  then have "length (d # rest') \<le> length (c # cs)"
    by (metis length_drop diff_le_self)
  then show ?case by simp
qed

text \<open>
  A leading colon must start \<open>::\<close>, which takes the first piece. After the loop the pieces
  read after the compression move to the end of the address.
\<close>

definition ipv6_parse :: "string \<Rightarrow> nat list option" where
  "ipv6_parse s =
     (let start =
            (case s of
               c # cs \<Rightarrow>
                 if c = CHR '':'' then
                   (case cs of
                      d # rest \<Rightarrow> if d = CHR '':'' then ipv6_pieces [0] (Some 1) rest else None
                    | [] \<Rightarrow> None)
                 else ipv6_pieces [] None s
             | [] \<Rightarrow> ipv6_pieces [] None s)
      in case start of
           None \<Rightarrow> None
         | Some (pieces, None) \<Rightarrow> if length pieces = 8 then Some pieces else None
         | Some (pieces, Some compress) \<Rightarrow>
             Some (take compress pieces @ drop (length pieces) [0, 0, 0, 0, 0, 0, 0, 0]
                     @ drop compress pieces))"

text \<open>
  The IPv6 serialiser: pieces (below 65536) in lower-case hexadecimal, the first longest run of two or
  more zero pieces compressed to \<open>::\<close>.
\<close>

definition lower_hex :: "nat \<Rightarrow> string" where
  "lower_hex n =
     map lower_hex_digit
       (dropWhile (\<lambda>d. d = 0) [n div 0x1000, n div 0x100 mod 0x10, n div 0x10 mod 0x10])
       @ [lower_hex_digit (n mod 0x10)]"

definition zero_run :: "nat list \<Rightarrow> nat \<Rightarrow> nat" where
  "zero_run address i = length (takeWhile (\<lambda>p. p = 0) (drop i address))"

definition ipv6_compress :: "nat list \<Rightarrow> nat option" where
  "ipv6_compress address =
     (let longest = fold max (map (zero_run address) [0, 1, 2, 3, 4, 5, 6, 7]) 0 in
      if longest \<le> 1 then None
      else find (\<lambda>i. zero_run address i = longest) [0, 1, 2, 3, 4, 5, 6, 7])"

fun ipv6_serialize_from :: "nat option \<Rightarrow> nat \<Rightarrow> bool \<Rightarrow> nat list \<Rightarrow> string" where
  "ipv6_serialize_from compress i ignore0 [] = []"
| "ipv6_serialize_from compress i ignore0 (p # ps) =
     (if ignore0 \<and> p = 0 then ipv6_serialize_from compress (i + 1) True ps
      else if compress = Some i
      then (if i = 0 then ''::'' else '':'') @ ipv6_serialize_from compress (i + 1) True ps
      else lower_hex p @ (if i \<noteq> 7 then '':'' else [])
             @ ipv6_serialize_from compress (i + 1) False ps)"

definition ipv6_serialize :: "nat list \<Rightarrow> string" where
  "ipv6_serialize address = ipv6_serialize_from (ipv6_compress address) 0 False address"

text \<open>
  The host parser for a host that is opaque, the host state (a colon inside brackets does
  not end the host) and the whole: leading and trailing C0 controls and spaces go, tabs
  and newlines go, the authority ends at the first \<open>/\<close>, \<open>?\<close> or \<open>#\<close>, the host starts
  after its last \<open>@\<close>, and a port is a number up to 65535.
\<close>

definition host_parse_opaque :: "string \<Rightarrow> string option" where
  "host_parse_opaque input =
     (if at_first input = Some CHR ''['' then
        (if at_last input \<noteq> Some CHR '']'' then None
         else (case ipv6_parse (butlast (tl input)) of
                 None \<Rightarrow> None
               | Some address \<Rightarrow> Some (''['' @ ipv6_serialize address @ '']'')))
      else if list_ex forbidden_host_code_point input then None
      else Some (concat (map utf8_percent_encode_c0 input)))"

fun host_state :: "bool \<Rightarrow> string \<Rightarrow> string \<Rightarrow> string \<times> string option" where
  "host_state insideBrackets buffer [] = (buffer, None)"
| "host_state insideBrackets buffer (c # cs) =
     (if c = CHR '':'' \<and> \<not> insideBrackets then (buffer, Some cs)
      else host_state
             (if c = CHR ''['' then True else if c = CHR '']'' then False else insideBrackets)
             (buffer @ [c]) cs)"

definition proto_URL_hostname :: "string \<Rightarrow> string option" where
  "proto_URL_hostname input =
     (let stripped = rev (dropWhile c0_control_or_space (rev (dropWhile c0_control_or_space input)));
          s = filter (\<lambda>c. \<not> ascii_tab_or_newline c) stripped
      in
      if \<not> prefix ''proto://'' s then None
      else
        let authority = takeWhile (\<lambda>c. \<not> List.member ''/?#'' c) (drop 8 s);
            atSignSeen = List.member authority CHR ''@'';
            hostport = (if atSignSeen then rev (takeWhile (\<lambda>c. c \<noteq> CHR ''@'') (rev authority))
                        else authority)
        in
        if atSignSeen \<and> hostport = [] then None
        else
          (case host_state False [] hostport of
             (buffer, None) \<Rightarrow> host_parse_opaque buffer
           | (buffer, Some portText) \<Rightarrow>
               if buffer = [] then None
               else (case host_parse_opaque buffer of
                       None \<Rightarrow> None
                     | Some host \<Rightarrow>
                         if \<not> list_all is_ascii_digit portText then None
                         else if 65535 < digits_value 0 portText then None
                         else Some host)))"

definition deno :: platform where
  "deno = \<lparr>normalize = posix_normalize, URL_hostname = proto_URL_hostname\<rparr>"

text \<open>Handlers, a connection and requests for the concrete evaluations.\<close>

definition respond :: "string \<Rightarrow> handler" where
  "respond content = (\<lambda>_ _. Response (Some content) 200 [])"

definition mockConnInfo :: connInfo where
  "mockConnInfo = ConnInfo (NetAddr ''0.0.0.0'' 4505 ''tcp'') (NetAddr ''0.0.0.0'' 4505 ''tcp'')"

definition http_url :: "string \<Rightarrow> string \<Rightarrow> url" where
  "http_url host path =
     \<lparr>protocol = ''http:'', hostname = host, port = ''4505'', pathname = path,
      query = Some ''qs=test'', fragment = Some ''hash''\<rparr>"

definition GET :: "string \<Rightarrow> string \<Rightarrow> request" where
  "GET host path = \<lparr>url = http_url host path, headers = Map.empty\<rparr>"

definition GET_with_host :: "string \<Rightarrow> string \<Rightarrow> string \<Rightarrow> request" where
  "GET_with_host hostHeader host path =
     \<lparr>url = http_url host path, headers = [''host'' \<mapsto> hostHeader]\<rparr>"

subsection \<open>The invariant of the subtree list\<close>

text \<open>Every entry of \<open>#orderedRoutes\<close> is a key of \<open>#routeMap\<close> and ends in a slash.\<close>

definition subtrees_registered :: "router \<Rightarrow> bool" where
  "subtrees_registered r \<longleftrightarrow>
     list_all (\<lambda>s. routeMap r s \<noteq> None \<and> at_last s = Some CHR ''/'') (orderedRoutes r)"

text \<open>The order the subtree list is meant to have: no entry is longer than one before it.\<close>

definition descending_length :: "string list \<Rightarrow> bool" where
  "descending_length rs \<longleftrightarrow> sorted_wrt (\<lambda>a b. length b \<le> length a) rs"

text \<open>
  Until a route with a host name is registered (\<open>hosts\<close> is false), every key of the route
  map starts with a slash.
\<close>

definition keys_rooted :: "router \<Rightarrow> bool" where
  "keys_rooted r \<longleftrightarrow> hosts r \<or> (\<forall>k. routeMap r k \<noteq> None \<longrightarrow> at_first k = Some CHR ''/'')"

section \<open>Properties\<close>

subsection \<open>What a call of handle does\<close>

lemma set_splice_insert: "set (splice_insert start x xs) = insert x (set xs)"
proof -
  have "set (take n xs @ [x] @ drop n xs) = insert x (set xs)" for n
  proof -
    have "set (take n xs) \<union> set (drop n xs) = set xs"
      by (metis append_take_drop_id set_append)
    then show ?thesis by auto
  qed
  then show ?thesis by (simp add: splice_insert_def Let_def)
qed

lemma handle_success:
  assumes "handle route hdl r = (Inr u, r')"
  shows "route \<noteq> []" and "routeMap r route = None"
    and "routeMap r' = (routeMap r)(route \<mapsto> hdl)"
    and "set (orderedRoutes r') =
           (if at_last route = Some CHR ''/'' then insert route (set (orderedRoutes r))
            else set (orderedRoutes r))"
    and "hosts r' = (at_first route \<noteq> Some CHR ''/'' \<or> hosts r)"
  using assms
  by (auto simp: handle_def Let_def set_splice_insert split: if_splits)

lemma subtrees_registered_handle:
  assumes "subtrees_registered r" and "handle route hdl r = (Inr u, r')"
  shows "subtrees_registered r'"
  using assms(1) handle_success[OF assms(2)]
  by (auto simp: subtrees_registered_def list_all_iff split: if_splits)

lemma subtrees_registered_handle_all:
  "subtrees_registered r \<Longrightarrow> handle_all calls r = (Inr u, r') \<Longrightarrow> subtrees_registered r'"
proof (induction calls arbitrary: r)
  case Nil
  then show ?case by simp
next
  case (Cons c calls)
  obtain route hdl where c: "c = (route, hdl)" by (cases c)
  obtain res r1 where h: "handle route hdl r = (res, r1)" by (cases "handle route hdl r")
  from Cons.prems(2) c h obtain v where res: "res = Inr v" and rest: "handle_all calls r1 = (Inr u, r')"
    by (cases res) auto
  from subtrees_registered_handle[OF Cons.prems(1) h[unfolded res]]
  have "subtrees_registered r1" .
  from Cons.IH[OF this rest] show ?case .
qed

lemma match_loop_defined:
  "\<forall>s\<in>set rs. m s \<noteq> None \<Longrightarrow> \<exists>s\<in>set rs. startsWith route s \<Longrightarrow> match_loop m route rs \<noteq> None"
  by (induction rs) auto

lemma two_routes:
  "handle_all [(''/'', respond ''/''), (''/path/'', respond ''/path/'')] new_Router =
     (Inr (), \<lparr>routeMap = [''/'' \<mapsto> respond ''/'', ''/path/'' \<mapsto> respond ''/path/''],
               orderedRoutes = [''/path/'', ''/''], hosts = False\<rparr>)"
  by (simp add: handle_def new_Router_def at_last_def at_first_def splice_insert_def Let_def)

lemma one_route:
  "handle ''/test/route'' (respond ''first'') new_Router =
     (Inr (), \<lparr>routeMap = [''/test/route'' \<mapsto> respond ''first''], orderedRoutes = [],
               hosts = False\<rparr>)"
  by (simp add: handle_def new_Router_def at_last_def at_first_def Let_def)

subsection \<open>Registration errors\<close>

text \<open>
  Claim C5. \<open>handle route hdl\<close> throws the "Invalid route" error exactly when the route is
  the empty string, throws the "Route ... already registered" error exactly when the
  route is not empty and is already a key of the route map, throws in no other case,
  and whenever it throws it leaves the router (route map, ordered routes, hosts flag) as
  it was.
\<close>

theorem handle_rejects_atomically:
  "(fst (handle route hdl r) = Inl ERROR_INVALID_ROUTE \<longleftrightarrow> route = [])
   \<and> (fst (handle route hdl r) = Inl (Http (''Route '' @ route @ '' already registered''))
        \<longleftrightarrow> route \<noteq> [] \<and> routeMap r route \<noteq> None)
   \<and> ((\<exists>e. fst (handle route hdl r) = Inl e) \<longleftrightarrow> route = [] \<or> routeMap r route \<noteq> None)
   \<and> (\<forall>e. fst (handle route hdl r) = Inl e \<longrightarrow> snd (handle route hdl r) = r)"
  by (auto simp: handle_def Let_def ERROR_INVALID_ROUTE_def)

theorem handle_rejects_atomically_witness:
  "fst (handle [] (respond ''x'') new_Router) = Inl ERROR_INVALID_ROUTE
   \<and> snd (handle [] (respond ''x'') new_Router) = new_Router
   \<and> fst (handle ''/test/route'' (respond ''second'')
            (snd (handle ''/test/route'' (respond ''first'') new_Router)))
       = Inl (Http ''Route /test/route already registered'')
   \<and> snd (handle ''/test/route'' (respond ''second'')
            (snd (handle ''/test/route'' (respond ''first'') new_Router)))
       = snd (handle ''/test/route'' (respond ''first'') new_Router)"
proof -
  let ?r = "\<lparr>routeMap = [''/test/route'' \<mapsto> respond ''first''], orderedRoutes = [],
               hosts = False\<rparr>"
  have dup: "''/test/route'' \<noteq> [] \<and> routeMap ?r ''/test/route'' \<noteq> None" by simp
  from handle_rejects_atomically[of "''/test/route''" "respond ''second''" ?r] dup
  have "fst (handle ''/test/route'' (respond ''second'') ?r)
          = Inl (Http (''Route '' @ ''/test/route'' @ '' already registered''))
        \<and> snd (handle ''/test/route'' (respond ''second'') ?r) = ?r"
    by blast
  moreover from handle_rejects_atomically[of "[]" "respond ''x''" new_Router]
  have "fst (handle [] (respond ''x'') new_Router) = Inl ERROR_INVALID_ROUTE
        \<and> snd (handle [] (respond ''x'') new_Router) = new_Router"
    by blast
  ultimately show ?thesis unfolding one_route by simp
qed

subsection \<open>The subtree list holds registered routes only\<close>

text \<open>
  Claim C10. After any sequence of \<open>handle\<close> calls that all succeed on a new router, every
  string of the ordered subtree list is a key of the route map and ends in a slash; so
  for a route that some entry of the list is a prefix of, \<open>match\<close> yields a handler and
  never \<open>undefined\<close>.
\<close>

theorem orderedRoutes_registered:
  assumes "handle_all calls new_Router = (Inr u, r)"
  shows "(\<forall>s\<in>set (orderedRoutes r). routeMap r s \<noteq> None \<and> at_last s = Some CHR ''/'')
       \<and> (\<forall>route. (\<exists>s\<in>set (orderedRoutes r). startsWith route s) \<longrightarrow> match r route \<noteq> None)"
proof -
  have "subtrees_registered new_Router"
    by (simp add: subtrees_registered_def new_Router_def)
  from subtrees_registered_handle_all[OF this assms]
  have inv: "\<forall>s\<in>set (orderedRoutes r). routeMap r s \<noteq> None \<and> at_last s = Some CHR ''/''"
    by (simp add: subtrees_registered_def list_all_iff)
  have "match r route \<noteq> None" if "\<exists>s\<in>set (orderedRoutes r). startsWith route s" for route
  proof (cases "routeMap r route")
    case None
    from inv have "\<forall>s\<in>set (orderedRoutes r). routeMap r s \<noteq> None" by blast
    from match_loop_defined[OF this that] None show ?thesis by (simp add: match_def)
  next
    case (Some h)
    then show ?thesis by (simp add: match_def)
  qed
  with inv show ?thesis by blast
qed

theorem orderedRoutes_registered_witness:
  "fst (handle_all [(''/'', respond ''/''), (''/path/'', respond ''/path/'')] new_Router) = Inr ()
   \<and> orderedRoutes (snd (handle_all [(''/'', respond ''/''), (''/path/'', respond ''/path/'')] new_Router))
       = [''/path/'', ''/'']
   \<and> match (snd (handle_all [(''/'', respond ''/''), (''/path/'', respond ''/path/'')] new_Router))
       ''/path/x'' \<noteq> None"
proof -
  let ?r = "\<lparr>routeMap = [''/'' \<mapsto> respond ''/'', ''/path/'' \<mapsto> respond ''/path/''],
               orderedRoutes = [''/path/'', ''/''], hosts = False\<rparr>"
  have "\<exists>s\<in>set (orderedRoutes ?r). startsWith ''/path/x'' s"
    by (simp add: startsWith_def)
  with orderedRoutes_registered[OF two_routes] have "match ?r ''/path/x'' \<noteq> None"
    by blast
  then show ?thesis unfolding two_routes by simp
qed

subsection \<open>The order of the subtree list\<close>

text \<open>
  When the list holds an entry shorter than the new route, \<open>findIndex\<close> finds the first
  such entry, the route goes right before it, and a list in descending order of length
  stays so.
\<close>

lemma findIndex_negative: "findIndex P xs < 0 \<longleftrightarrow> (\<forall>x\<in>set xs. \<not> P x)"
  by (induction xs) (auto simp: Let_def)

lemma findIndex_found:
  "\<exists>x\<in>set xs. P x \<Longrightarrow> findIndex P xs = int (length (takeWhile (\<lambda>x. \<not> P x) xs))"
  by (induction xs) (auto simp: Let_def findIndex_negative)

lemma findIndex_none: "\<forall>x\<in>set xs. \<not> P x \<Longrightarrow> findIndex P xs = - 1"
  by (induction xs) (auto simp: Let_def)

lemma splice_before_first:
  assumes "\<exists>x\<in>set xs. P x"
  shows "splice_insert (findIndex P xs) y xs = takeWhile (\<lambda>x. \<not> P x) xs @ y # dropWhile (\<lambda>x. \<not> P x) xs"
proof -
  let ?n = "length (takeWhile (\<lambda>x. \<not> P x) xs)"
  have "?n \<le> length xs" by (rule length_takeWhile_le)
  moreover have "take ?n xs = takeWhile (\<lambda>x. \<not> P x) xs"
    by (metis append_eq_conv_conj takeWhile_dropWhile_id)
  moreover have "drop ?n xs = dropWhile (\<lambda>x. \<not> P x) xs"
    by (metis append_eq_conv_conj takeWhile_dropWhile_id)
  ultimately show ?thesis
    by (simp add: splice_insert_def Let_def findIndex_found[OF assms])
qed

text \<open>
  When no entry is shorter, \<open>findIndex\<close> answers \<open>-1\<close> and the route goes before the last
  entry of the list (into an empty list, as its only entry).
\<close>

lemma splice_before_last:
  assumes "\<forall>x\<in>set xs. \<not> P x"
  shows "splice_insert (findIndex P xs) y xs =
           take (length xs - 1) xs @ y # drop (length xs - 1) xs"
proof -
  have "nat (max (int (length xs) + - 1) 0) = length xs - 1" by simp
  then show ?thesis
    by (simp add: splice_insert_def Let_def findIndex_none[OF assms])
qed

lemma descending_insert_before_first_shorter:
  assumes "descending_length rs" and "\<exists>s\<in>set rs. length s < length route"
  shows "descending_length (splice_insert (findIndex (\<lambda>s. length s < length route) rs) route rs)"
proof -
  let ?P = "\<lambda>s. length s < length route"
  let ?front = "takeWhile (\<lambda>s. \<not> ?P s) rs"
  let ?shorter = "dropWhile (\<lambda>s. \<not> ?P s) rs"
  have parts: "rs = ?front @ ?shorter" by simp
  have front: "\<forall>s\<in>set ?front. length route \<le> length s"
    by (auto dest: set_takeWhileD)
  from assms(2) have "?shorter \<noteq> []" by (auto simp: dropWhile_eq_Nil_conv)
  then obtain b bs where rest_eq: "?shorter = b # bs" by (cases ?shorter) auto
  then have b: "length b < length route"
    by (metis hd_dropWhile list.sel(1) list.distinct(1))
  from assms(1) have sorted: "sorted_wrt (\<lambda>a b. length b \<le> length a) (?front @ b # bs)"
    unfolding descending_length_def using parts rest_eq by metis
  then have "\<forall>s\<in>set bs. length s \<le> length b"
    by (simp add: sorted_wrt_append)
  with b have shorter_le: "\<forall>s\<in>set (b # bs). length s \<le> length route" by auto
  from sorted front shorter_le
  have "sorted_wrt (\<lambda>a b. length b \<le> length a) (?front @ route # b # bs)"
    by (auto simp: sorted_wrt_append)
  then show ?thesis
    unfolding descending_length_def splice_before_first[of rs ?P, OF assms(2)] rest_eq .
qed

text \<open>
  Claim C1. The subtree list is meant to stay in descending order of length after every
  successful \<open>handle\<close>. It does not: when no entry is shorter than the new route,
  \<open>findIndex\<close> answers \<open>-1\<close>, and \<open>splice\<close> at \<open>-1\<close> puts the route before the last entry
  instead of after it. Registering \<open>/path/\<close> and then \<open>/a/\<close> leaves the list
  \<open>[/a/, /path/]\<close>, which is not in descending order.
\<close>

theorem handle_breaks_descending_order:
  "fst (handle_all [(''/path/'', respond ''/path/''), (''/a/'', respond ''/a/'')] new_Router) = Inr ()
   \<and> orderedRoutes (snd (handle_all [(''/path/'', respond ''/path/''), (''/a/'', respond ''/a/'')] new_Router))
       = [''/a/'', ''/path/'']
   \<and> \<not> descending_length
         (orderedRoutes (snd (handle_all [(''/path/'', respond ''/path/''), (''/a/'', respond ''/a/'')] new_Router)))"
  by (simp add: handle_def new_Router_def at_last_def at_first_def splice_insert_def Let_def
      descending_length_def)

lemma three_routes:
  "handle_all [(''/a/b/c/'', respond ''/a/b/c/''), (''/a/b/'', respond ''/a/b/''), (''/a/'', respond ''/a/'')]
     new_Router =
     (Inr (), \<lparr>routeMap = [''/a/b/c/'' \<mapsto> respond ''/a/b/c/'', ''/a/b/'' \<mapsto> respond ''/a/b/'',
                            ''/a/'' \<mapsto> respond ''/a/''],
               orderedRoutes = [''/a/b/'', ''/a/'', ''/a/b/c/''], hosts = False\<rparr>)"
  by (simp add: handle_def new_Router_def at_last_def at_first_def splice_insert_def Let_def)

lemma normalize_abcd: "posix_normalize ''/a/b/c/d'' = ''/a/b/c/d''"
  by (simp add: posix_normalize_def at_first_def at_last_def join_slash_def Let_def)

text \<open>
  Claim C2. Dispatch is meant to resolve a path to the handler of the longest registered
  subtree route that is a prefix of it, in whatever order the routes were registered.
  After registering \<open>/a/b/c/\<close>, \<open>/a/b/\<close> and \<open>/a/\<close> in this order the list is
  \<open>[/a/b/, /a/, /a/b/c/]\<close>, and the request for \<open>/a/b/c/d\<close> gets the response of the
  handler of \<open>/a/b/\<close>.
\<close>

theorem dispatch_shorter_prefix_wins:
  "fst (handler deno (GET ''0.0.0.0'' ''/a/b/c/d'') mockConnInfo
         (snd (handle_all
           [(''/a/b/c/'', respond ''/a/b/c/''), (''/a/b/'', respond ''/a/b/''), (''/a/'', respond ''/a/'')]
           new_Router)))
     = Inr (Response (Some ''/a/b/'') 200 [])"
  unfolding three_routes
  by (simp add: handler_def getHandler_def getHostname_def GET_def http_url_def deno_def
      normalize_abcd shouldRedirect_def matchHandler_def match_def startsWith_def respond_def
      at_last_def Let_def)

subsection \<open>Dispatch: the three branches of getHandler\<close>

lemma shouldRedirect_iff:
  "shouldRedirect r host path \<longleftrightarrow>
     routeMap r path = None \<and> routeMap r (host @ path) = None
     \<and> (routeMap r (path @ ''/'') \<noteq> None \<or> routeMap r (host @ path @ ''/'') \<noteq> None)
     \<and> at_last path \<noteq> Some CHR ''/''"
  by (auto simp: shouldRedirect_def Let_def)

lemma href_pathname:
  "href (u\<lparr>pathname := p\<rparr>) =
     protocol u @ ''//'' @ hostname u @ (if port u = [] then [] else '':'' @ port u)
       @ p @ query_fragment u"
  by (simp add: href_def query_fragment_def)

lemma getHandler_cases:
  assumes "getHostname P (headers req) (url req) = Inr host"
  shows "getHandler P r req =
     Inr (let path = normalize P (pathname (url req)) in
          if shouldRedirect r host path
          then redirectHandler ((url req)\<lparr>pathname := path @ ''/''\<rparr>) Status_MovedPermanently
          else if path \<noteq> pathname (url req)
          then redirectHandler ((url req)\<lparr>pathname := path\<rparr>) Status_MovedPermanently
          else matchHandler r host path)"
  using assms by (simp add: getHandler_def Let_def)

lemma getHandler_throws:
  assumes "getHostname P (headers req) (url req) = Inl e"
  shows "handler P req conn r = (Inl e, r)"
  using assms by (simp add: handler_def getHandler_def)

lemma match_loop_no_prefix:
  "\<forall>s\<in>set rs. \<not> startsWith route s \<Longrightarrow> match_loop m route rs = None"
  by (induction rs) auto

lemma match_loop_find:
  "match_loop m route rs =
     (case find (\<lambda>s. startsWith route s) rs of None \<Rightarrow> None | Some s \<Rightarrow> m s)"
  by (induction rs) auto

lemma normalize_path: "posix_normalize ''/path'' = ''/path''"
  by (simp add: posix_normalize_def at_first_def at_last_def join_slash_def Let_def)

lemma normalize_slash_path: "posix_normalize ''//path'' = ''/path''"
  by (simp add: posix_normalize_def at_first_def at_last_def join_slash_def Let_def)

lemma normalize_path_slashes: "posix_normalize ''/path//'' = ''/path/''"
  by (simp add: posix_normalize_def at_first_def at_last_def join_slash_def Let_def)

lemma path_only:
  "handle_all [(''/path/'', respond ''/path/'')] new_Router =
     (Inr (), \<lparr>routeMap = [''/path/'' \<mapsto> respond ''/path/''],
               orderedRoutes = [''/path/''], hosts = False\<rparr>)"
  by (simp add: handle_def new_Router_def at_last_def at_first_def splice_insert_def Let_def)

lemma host_path_routes:
  "handle_all [(''/'', respond ''/''), (''0.0.0.1/path/'', respond ''0.0.0.1/path/'')] new_Router =
     (Inr (), \<lparr>routeMap = [''/'' \<mapsto> respond ''/'', ''0.0.0.1/path/'' \<mapsto> respond ''0.0.0.1/path/''],
               orderedRoutes = [''0.0.0.1/path/'', ''/''], hosts = True\<rparr>)"
  by (simp add: handle_def new_Router_def at_last_def at_first_def splice_insert_def Let_def)

text \<open>
  The URL constructor on some Host headers: a host with a port, IPv6 literals, a
  character above U+007F, a host with a space.
\<close>

lemmas url_parser_defs =
  proto_URL_hostname_def host_parse_opaque_def c0_control_or_space_def ascii_tab_or_newline_def
  forbidden_host_code_point_def is_ascii_digit_def utf8_percent_encode_c0_def
  percent_encode_byte_def upper_hex_digit_def at_first_def at_last_def Let_def

lemmas ipv6_defs =
  ipv6_parse_def ipv6_serialize_def ipv6_compress_def zero_run_def is_ascii_hex_digit_def
  hex_value_def lower_hex_def lower_hex_digit_def ipv4_in_ipv6_def ipv4_piece_def

lemma host_header_parsed: "proto_URL_hostname ''proto://0.0.0.1:4505'' = Some ''0.0.0.1''"
  by (simp add: url_parser_defs)

lemma host_header_ipv6: "proto_URL_hostname ''proto://[0:0::1]:8080'' = Some ''[::1]''"
  by (simp add: url_parser_defs ipv6_defs)

lemma host_header_ipv4_in_ipv6:
  "proto_URL_hostname ''proto://[::ffff:1.2.3.4]'' = Some ''[::ffff:102:304]''"
  by (simp add: url_parser_defs ipv6_defs)

lemma host_header_latin1: "proto_URL_hostname (''proto://'' @ [CHR 0xE9]) = Some ''%C3%A9''"
  by (simp add: url_parser_defs)

lemma host_header_rejected: "proto_URL_hostname ''proto://a b'' = None"
  by (simp add: url_parser_defs)

lemma getHostname_rejected:
  "getHostname deno (headers (GET_with_host ''a b'' host path)) (url (GET_with_host ''a b'' host path))
     = Inl (TypeError ''Invalid URL'')"
  by (simp add: getHostname_def GET_with_host_def deno_def host_header_rejected)

text \<open>
  Claim C3, as amended. For a request whose host name \<open>_getHostname\<close> returns, with \<open>path\<close>
  the normalised path of the request: the trailing-slash redirect is taken exactly when
  neither \<open>path\<close> nor \<open>host + path\<close> is a key of the route map, one of the two with a slash
  appended is a key, and \<open>path\<close> does not end in a slash. The response is then a 301 whose
  Location is the request's URL with its path replaced by the normalised path and a
  slash, its query string and its fragment kept. When the redirect is not taken,
  dispatch goes on to the normalisation redirect or to the match.
\<close>

theorem trailing_slash_redirect:
  assumes "getHostname P (headers req) (url req) = Inr host"
      and "path = normalize P (pathname (url req))"
  shows "(shouldRedirect r host path \<longleftrightarrow>
            routeMap r path = None \<and> routeMap r (host @ path) = None
            \<and> (routeMap r (path @ ''/'') \<noteq> None \<or> routeMap r (host @ path @ ''/'') \<noteq> None)
            \<and> at_last path \<noteq> Some CHR ''/'')
       \<and> (shouldRedirect r host path \<longrightarrow>
            getHandler P r req =
              Inr (redirectHandler ((url req)\<lparr>pathname := path @ ''/''\<rparr>) Status_MovedPermanently)
            \<and> handler P req conn r =
              (Inr (Response None 301
                 [(''location'',
                   protocol (url req) @ ''//'' @ hostname (url req)
                     @ (if port (url req) = [] then [] else '':'' @ port (url req))
                     @ (path @ ''/'') @ query_fragment (url req))]), r))
       \<and> (\<not> shouldRedirect r host path \<longrightarrow>
            getHandler P r req =
              Inr (if path \<noteq> pathname (url req)
                   then redirectHandler ((url req)\<lparr>pathname := path\<rparr>) Status_MovedPermanently
                   else matchHandler r host path))"
proof (intro conjI impI)
  show "shouldRedirect r host path \<longleftrightarrow>
            routeMap r path = None \<and> routeMap r (host @ path) = None
            \<and> (routeMap r (path @ ''/'') \<noteq> None \<or> routeMap r (host @ path @ ''/'') \<noteq> None)
            \<and> at_last path \<noteq> Some CHR ''/''"
    by (rule shouldRedirect_iff)
next
  assume "shouldRedirect r host path"
  with getHandler_cases[OF assms(1), of r] assms(2)
  show g: "getHandler P r req =
      Inr (redirectHandler ((url req)\<lparr>pathname := path @ ''/''\<rparr>) Status_MovedPermanently)"
    by (simp add: Let_def)
  show "handler P req conn r =
              (Inr (Response None 301
                 [(''location'',
                   protocol (url req) @ ''//'' @ hostname (url req)
                     @ (if port (url req) = [] then [] else '':'' @ port (url req))
                     @ (path @ ''/'') @ query_fragment (url req))]), r)"
    by (simp add: handler_def g redirectHandler_def href_pathname Status_MovedPermanently_def)
next
  assume "\<not> shouldRedirect r host path"
  with getHandler_cases[OF assms(1), of r] assms(2)
  show "getHandler P r req =
              Inr (if path \<noteq> pathname (url req)
                   then redirectHandler ((url req)\<lparr>pathname := path\<rparr>) Status_MovedPermanently
                   else matchHandler r host path)"
    by (simp add: Let_def)
qed

theorem trailing_slash_redirect_witness:
  "handler deno (GET_with_host ''0.0.0.1:4505'' ''0.0.0.0'' ''/path'') mockConnInfo
     (snd (handle_all [(''/'', respond ''/''), (''0.0.0.1/path/'', respond ''0.0.0.1/path/'')]
            new_Router))
   = (Inr (Response None 301 [(''location'', ''http://0.0.0.0:4505/path/?qs=test#hash'')]),
      snd (handle_all [(''/'', respond ''/''), (''0.0.0.1/path/'', respond ''0.0.0.1/path/'')]
            new_Router))"
proof -
  let ?r = "\<lparr>routeMap = [''/'' \<mapsto> respond ''/'', ''0.0.0.1/path/'' \<mapsto> respond ''0.0.0.1/path/''],
               orderedRoutes = [''0.0.0.1/path/'', ''/''], hosts = True\<rparr>"
  let ?req = "GET_with_host ''0.0.0.1:4505'' ''0.0.0.0'' ''/path''"
  have host: "getHostname deno (headers ?req) (url ?req) = Inr ''0.0.0.1''"
    by (simp add: getHostname_def GET_with_host_def deno_def host_header_parsed)
  have path: "''/path'' = normalize deno (pathname (url ?req))"
    by (simp add: deno_def GET_with_host_def http_url_def normalize_path)
  have red: "shouldRedirect ?r ''0.0.0.1'' ''/path''"
    by (simp add: shouldRedirect_def at_last_def Let_def)
  from trailing_slash_redirect[OF host path, of ?r mockConnInfo] red
  have "handler deno ?req mockConnInfo ?r =
      (Inr (Response None 301
         [(''location'',
           protocol (url ?req) @ ''//'' @ hostname (url ?req)
             @ (if port (url ?req) = [] then [] else '':'' @ port (url ?req))
             @ (''/path'' @ ''/'') @ query_fragment (url ?req))]), ?r)"
    by blast
  then show ?thesis
    unfolding host_path_routes by (simp add: GET_with_host_def http_url_def query_fragment_def)
qed

text \<open>
  The claim as stated fails on two counts. The Location is not the request's URL with a
  slash appended to its path: with \<open>/path/\<close> registered, the request for \<open>//path\<close> is
  redirected to \<open>/path/\<close>, not to \<open>//path/\<close>, since the slash is appended to the
  normalised path. And for a request whose Host header the URL constructor rejects, here
  \<open>a b\<close>, the claimed condition holds (for the host name of the URL and for the text of
  the header alike) and dispatch throws instead of redirecting.
\<close>

theorem trailing_slash_redirect_counterexample:
  "handler deno (GET ''0.0.0.0'' ''//path'') mockConnInfo
     (snd (handle_all [(''/path/'', respond ''/path/'')] new_Router))
   = (Inr (Response None 301 [(''location'', ''http://0.0.0.0:4505/path/?qs=test#hash'')]),
      snd (handle_all [(''/path/'', respond ''/path/'')] new_Router))
   \<and> href ((url (GET ''0.0.0.0'' ''//path''))
             \<lparr>pathname := pathname (url (GET ''0.0.0.0'' ''//path'')) @ ''/''\<rparr>)
       = ''http://0.0.0.0:4505//path/?qs=test#hash''
   \<and> shouldRedirect (snd (handle_all [(''/path/'', respond ''/path/'')] new_Router))
         ''0.0.0.0'' ''/path''
   \<and> shouldRedirect (snd (handle_all [(''/path/'', respond ''/path/'')] new_Router))
         ''a b'' ''/path''
   \<and> handler deno (GET_with_host ''a b'' ''0.0.0.0'' ''/path'') mockConnInfo
         (snd (handle_all [(''/path/'', respond ''/path/'')] new_Router))
       = (Inl (TypeError ''Invalid URL''),
          snd (handle_all [(''/path/'', respond ''/path/'')] new_Router))"
proof -
  let ?r = "\<lparr>routeMap = [''/path/'' \<mapsto> respond ''/path/''],
               orderedRoutes = [''/path/''], hosts = False\<rparr>"
  have "handler deno (GET ''0.0.0.0'' ''//path'') mockConnInfo ?r
      = (Inr (Response None 301 [(''location'', ''http://0.0.0.0:4505/path/?qs=test#hash'')]), ?r)"
    by (simp add: handler_def getHandler_def getHostname_def GET_def http_url_def deno_def
        normalize_slash_path shouldRedirect_def at_last_def redirectHandler_def href_def
        query_fragment_def Status_MovedPermanently_def Let_def)
  moreover have "href ((url (GET ''0.0.0.0'' ''//path''))
             \<lparr>pathname := pathname (url (GET ''0.0.0.0'' ''//path'')) @ ''/''\<rparr>)
       = ''http://0.0.0.0:4505//path/?qs=test#hash''"
    by (simp add: GET_def http_url_def href_def query_fragment_def)
  moreover have "shouldRedirect ?r ''0.0.0.0'' ''/path''" "shouldRedirect ?r ''a b'' ''/path''"
    by (simp_all add: shouldRedirect_def at_last_def Let_def)
  moreover have "handler deno (GET_with_host ''a b'' ''0.0.0.0'' ''/path'') mockConnInfo ?r
       = (Inl (TypeError ''Invalid URL''), ?r)"
    by (rule getHandler_throws[OF getHostname_rejected])
  ultimately show ?thesis unfolding path_only by simp
qed

subsection \<open>The order of the match\<close>

text \<open>
  A router built by \<open>handle\<close> calls alone that has no route with a host name finds
  nothing in the host-qualified phase, so leaving that phase out when \<open>hosts\<close> is false
  changes no result. (A host name holds no slash.)
\<close>

lemma keys_rooted_handle:
  assumes "keys_rooted r" and "handle route hdl r = (Inr u, r')"
  shows "keys_rooted r'"
  using assms(1) handle_success(3,5)[OF assms(2)]
  by (auto simp: keys_rooted_def)

lemma keys_rooted_handle_all:
  "keys_rooted r \<Longrightarrow> handle_all calls r = (Inr u, r') \<Longrightarrow> keys_rooted r'"
proof (induction calls arbitrary: r)
  case Nil
  then show ?case by simp
next
  case (Cons c calls)
  obtain route hdl where c: "c = (route, hdl)" by (cases c)
  obtain res r1 where h: "handle route hdl r = (res, r1)" by (cases "handle route hdl r")
  from Cons.prems(2) c h obtain v where res: "res = Inr v" and rest: "handle_all calls r1 = (Inr u, r')"
    by (cases res) auto
  from keys_rooted_handle[OF Cons.prems(1) h[unfolded res]]
  have "keys_rooted r1" .
  from Cons.IH[OF this rest] show ?case .
qed

lemma startsWith_first:
  "startsWith s p \<Longrightarrow> p \<noteq> [] \<Longrightarrow> at_first s = at_first p"
  by (cases p; cases s) (auto simp: startsWith_def at_first_def)

lemma at_first_append: "host \<noteq> [] \<Longrightarrow> at_first (host @ path) = at_first host"
  by (cases host) (auto simp: at_first_def)

lemma host_phase_empty:
  assumes built: "handle_all calls new_Router = (Inr u, r)"
      and nohosts: "\<not> hosts r"
      and host: "host \<noteq> []" "at_first host \<noteq> Some CHR ''/''"
  shows "match r (host @ path) = None"
proof -
  have "keys_rooted new_Router" by (simp add: keys_rooted_def new_Router_def)
  from keys_rooted_handle_all[OF this built] nohosts
  have keys: "\<And>k. routeMap r k \<noteq> None \<Longrightarrow> at_first k = Some CHR ''/''"
    by (auto simp: keys_rooted_def)
  have "subtrees_registered new_Router"
    by (simp add: subtrees_registered_def new_Router_def)
  from subtrees_registered_handle_all[OF this built]
  have subs: "\<forall>s\<in>set (orderedRoutes r). routeMap r s \<noteq> None"
    by (simp add: subtrees_registered_def list_all_iff)
  have first: "at_first (host @ path) \<noteq> Some CHR ''/''"
    using host by (simp add: at_first_append)
  have exact: "routeMap r (host @ path) = None"
    using keys[of "host @ path"] first by blast
  have "\<not> startsWith (host @ path) s" if "s \<in> set (orderedRoutes r)" for s
  proof
    assume sw: "startsWith (host @ path) s"
    from subs that have "routeMap r s \<noteq> None" by blast
    from keys[OF this] have s: "at_first s = Some CHR ''/''" .
    then have "s \<noteq> []" by (auto simp: at_first_def)
    from startsWith_first[OF sw this] s first show False by simp
  qed
  then have "match_loop (routeMap r) (host @ path) (orderedRoutes r) = None"
    by (intro match_loop_no_prefix) blast
  with exact show ?thesis by (simp add: match_def)
qed

lemma two_phases:
  assumes "handle_all calls new_Router = (Inr u, r)" and "at_first host \<noteq> Some CHR ''/''"
  shows "matchHandler r host path =
     (case match r (host @ path) of
        Some h \<Rightarrow> h
      | None \<Rightarrow> (case match r path of Some h \<Rightarrow> h | None \<Rightarrow> notFoundHandler))"
proof (cases "hosts r")
  case True
  then show ?thesis by (simp add: matchHandler_def)
next
  case False
  show ?thesis
  proof (cases "host = []")
    case True
    with False show ?thesis by (simp add: matchHandler_def split: option.splits)
  next
    case nonempty: False
    from host_phase_empty[OF assms(1) False nonempty assms(2)] False
    show ?thesis by (simp add: matchHandler_def)
  qed
qed

lemma host_routes:
  "handle_all [(''0.0.0.1/'', respond ''0.0.0.1/''), (''/x'', respond ''/x'')] new_Router =
     (Inr (), \<lparr>routeMap = [''0.0.0.1/'' \<mapsto> respond ''0.0.0.1/'', ''/x'' \<mapsto> respond ''/x''],
               orderedRoutes = [''0.0.0.1/''], hosts = True\<rparr>)"
  by (simp add: handle_def new_Router_def at_last_def at_first_def splice_insert_def Let_def)

text \<open>
  Claim C4. Within a phase \<open>match\<close> looks the route up in the route map first, and scans
  the subtree list (the first entry that is a prefix decides) only when the route is not
  a key: an exact match beats any subtree match. \<open>matchHandler\<close> runs the whole
  host-qualified phase, on \<open>host + path\<close>, and takes its hit; only when that phase finds
  nothing (or no host route was ever registered, when it would find nothing) does it run
  the host-less phase on \<open>path\<close>, and the not-found handler comes last. So a
  host-qualified subtree match beats a host-less exact match.
\<close>

theorem match_precedence:
  "(routeMap r route = Some h \<longrightarrow> match r route = Some h)
   \<and> (routeMap r route = None \<longrightarrow>
        match r route =
          (case find (\<lambda>s. startsWith route s) (orderedRoutes r) of
             None \<Rightarrow> None
           | Some s \<Rightarrow> routeMap r s))
   \<and> (hosts r \<and> match r (host @ path) = Some h \<longrightarrow> matchHandler r host path = h)
   \<and> (\<not> hosts r \<or> match r (host @ path) = None \<longrightarrow>
        matchHandler r host path =
          (case match r path of Some h' \<Rightarrow> h' | None \<Rightarrow> notFoundHandler))
   \<and> (hosts r \<and> routeMap r (host @ path) = None
        \<and> find (\<lambda>s. startsWith (host @ path) s) (orderedRoutes r) = Some s
        \<and> routeMap r s = Some h \<and> routeMap r path = Some h'
        \<longrightarrow> matchHandler r host path = h)
   \<and> ((\<exists>calls u. handle_all calls new_Router = (Inr u, r)) \<and> at_first host \<noteq> Some CHR ''/''
        \<longrightarrow> matchHandler r host path =
          (case match r (host @ path) of
             Some h' \<Rightarrow> h'
           | None \<Rightarrow> (case match r path of Some h' \<Rightarrow> h' | None \<Rightarrow> notFoundHandler)))"
proof (intro conjI impI)
  assume "routeMap r route = Some h"
  then show "match r route = Some h" by (simp add: match_def)
next
  assume "routeMap r route = None"
  then show "match r route =
          (case find (\<lambda>s. startsWith route s) (orderedRoutes r) of
             None \<Rightarrow> None
           | Some s \<Rightarrow> routeMap r s)"
    by (simp add: match_def match_loop_find)
next
  assume "hosts r \<and> match r (host @ path) = Some h"
  then show "matchHandler r host path = h" by (simp add: matchHandler_def)
next
  assume "\<not> hosts r \<or> match r (host @ path) = None"
  then show "matchHandler r host path =
          (case match r path of Some h' \<Rightarrow> h' | None \<Rightarrow> notFoundHandler)"
    by (auto simp: matchHandler_def)
next
  assume a: "hosts r \<and> routeMap r (host @ path) = None
        \<and> find (\<lambda>s. startsWith (host @ path) s) (orderedRoutes r) = Some s
        \<and> routeMap r s = Some h \<and> routeMap r path = Some h'"
  then have "match r (host @ path) = Some h"
    by (simp add: match_def match_loop_find)
  with a show "matchHandler r host path = h" by (simp add: matchHandler_def)
next
  assume "(\<exists>calls u. handle_all calls new_Router = (Inr u, r)) \<and> at_first host \<noteq> Some CHR ''/''"
  then obtain calls u where "handle_all calls new_Router = (Inr u, r)"
    and "at_first host \<noteq> Some CHR ''/''" by blast
  then show "matchHandler r host path =
          (case match r (host @ path) of
             Some h' \<Rightarrow> h'
           | None \<Rightarrow> (case match r path of Some h' \<Rightarrow> h' | None \<Rightarrow> notFoundHandler))"
    by (rule two_phases)
qed

theorem match_precedence_witness:
  "matchHandler
     (snd (handle_all [(''0.0.0.1/'', respond ''0.0.0.1/''), (''/x'', respond ''/x'')] new_Router))
     ''0.0.0.1'' ''/x'' = respond ''0.0.0.1/''
   \<and> match
     (snd (handle_all [(''0.0.0.1/'', respond ''0.0.0.1/''), (''/x'', respond ''/x'')] new_Router))
     ''/x'' = Some (respond ''/x'')"
proof -
  let ?r = "\<lparr>routeMap = [''0.0.0.1/'' \<mapsto> respond ''0.0.0.1/'', ''/x'' \<mapsto> respond ''/x''],
               orderedRoutes = [''0.0.0.1/''], hosts = True\<rparr>"
  have pre: "hosts ?r \<and> routeMap ?r (''0.0.0.1'' @ ''/x'') = None
        \<and> find (\<lambda>s. startsWith (''0.0.0.1'' @ ''/x'') s) (orderedRoutes ?r) = Some ''0.0.0.1/''
        \<and> routeMap ?r ''0.0.0.1/'' = Some (respond ''0.0.0.1/'')
        \<and> routeMap ?r ''/x'' = Some (respond ''/x'')"
    by (simp add: startsWith_def)
  have exact: "routeMap ?r ''/x'' = Some (respond ''/x'')" by simp
  from match_precedence[of ?r "''/x''" "respond ''/x''" "''0.0.0.1''" "''/x''" "''0.0.0.1/''"] exact
  have m: "match ?r ''/x'' = Some (respond ''/x'')" by blast
  from match_precedence[of ?r "''0.0.0.1/''" "respond ''0.0.0.1/''" "''0.0.0.1''" "''/x''" "''0.0.0.1/''"
      "respond ''/x''"] pre
  have "matchHandler ?r ''0.0.0.1'' ''/x'' = respond ''0.0.0.1/''" by blast
  with m show ?thesis unfolding host_routes by simp
qed

subsection \<open>Dispatch: not found\<close>

text \<open>
  Where \<open>_getHostname\<close> returns a host name, the 404 is sent as documented: for a request
  whose normalised path is its raw path, that needs no trailing-slash redirect, and for
  which neither \<open>host + path\<close> nor \<open>path\<close> is a key of the route map or has an entry of
  the subtree list as a prefix.
\<close>

lemma not_found_response:
  assumes "getHostname P (headers req) (url req) = Inr host"
      and "normalize P (pathname (url req)) = pathname (url req)"
      and "\<not> shouldRedirect r host (pathname (url req))"
      and "routeMap r (host @ pathname (url req)) = None"
      and "routeMap r (pathname (url req)) = None"
      and "\<forall>s\<in>set (orderedRoutes r).
             \<not> startsWith (host @ pathname (url req)) s \<and> \<not> startsWith (pathname (url req)) s"
  shows "handler P req conn r =
     (Inr (Response (Some ''Not Found'') 404
        [(''content-type'', ''text/plain; charset=utf-8''),
         (''x-content-type-options'', ''nosniff'')]), r)"
proof -
  from assms(6) have "match_loop (routeMap r) (host @ pathname (url req)) (orderedRoutes r) = None"
    by (intro match_loop_no_prefix) blast
  with assms(4) have m1: "match r (host @ pathname (url req)) = None"
    by (simp add: match_def)
  from assms(6) have "match_loop (routeMap r) (pathname (url req)) (orderedRoutes r) = None"
    by (intro match_loop_no_prefix) blast
  with assms(5) have m2: "match r (pathname (url req)) = None"
    by (simp add: match_def)
  from m1 m2 have "matchHandler r host (pathname (url req)) = notFoundHandler"
    by (simp add: matchHandler_def)
  with getHandler_cases[OF assms(1), of r] assms(2,3)
  have "getHandler P r req = Inr notFoundHandler" by (simp add: Let_def)
  then show ?thesis
    by (simp add: handler_def notFoundHandler_def STATUS_TEXT_def Status_NotFound_def)
qed

lemma host_root_only:
  "handle_all [(''0.0.0.1/'', respond ''0.0.0.1/'')] new_Router =
     (Inr (), \<lparr>routeMap = [''0.0.0.1/'' \<mapsto> respond ''0.0.0.1/''],
               orderedRoutes = [''0.0.0.1/''], hosts = True\<rparr>)"
  by (simp add: handle_def new_Router_def at_last_def at_first_def splice_insert_def Let_def)

lemma not_found_response_example:
  "handler deno (GET ''0.0.0.0'' ''/path'') mockConnInfo
     (snd (handle_all [(''0.0.0.1/'', respond ''0.0.0.1/'')] new_Router)) =
     (Inr (Response (Some ''Not Found'') 404
        [(''content-type'', ''text/plain; charset=utf-8''),
         (''x-content-type-options'', ''nosniff'')]),
      snd (handle_all [(''0.0.0.1/'', respond ''0.0.0.1/'')] new_Router))"
proof -
  let ?r = "\<lparr>routeMap = [''0.0.0.1/'' \<mapsto> respond ''0.0.0.1/''],
               orderedRoutes = [''0.0.0.1/''], hosts = True\<rparr>"
  let ?req = "GET ''0.0.0.0'' ''/path''"
  have p: "pathname (url ?req) = ''/path''" by (simp add: GET_def http_url_def)
  have host: "getHostname deno (headers ?req) (url ?req) = Inr ''0.0.0.0''"
    by (simp add: getHostname_def GET_def http_url_def)
  have norm: "normalize deno (pathname (url ?req)) = pathname (url ?req)"
    by (simp add: p deno_def normalize_path)
  have nored: "\<not> shouldRedirect ?r ''0.0.0.0'' (pathname (url ?req))"
    by (simp add: p shouldRedirect_def Let_def)
  have e1: "routeMap ?r (''0.0.0.0'' @ pathname (url ?req)) = None"
    by (simp add: p)
  have e2: "routeMap ?r (pathname (url ?req)) = None"
    by (simp add: p)
  have sub: "\<forall>s\<in>set (orderedRoutes ?r).
     \<not> startsWith (''0.0.0.0'' @ pathname (url ?req)) s \<and> \<not> startsWith (pathname (url ?req)) s"
    by (simp add: p startsWith_def)
  show ?thesis
    unfolding host_root_only snd_conv
    by (rule not_found_response[OF host norm nored e1 e2 sub])
qed

text \<open>
  Claim C6. A request whose normalised path is its raw path, that needs no trailing-slash
  redirect and matches no exact route and no subtree route in either phase is meant to
  get the 404 response. It does not when its Host header is one the URL constructor
  rejects: on a new router, which has no route at all, the request for \<open>/path\<close> with the
  Host header \<open>a b\<close> makes \<open>_getHostname\<close> throw a TypeError, and dispatch sends nothing.
\<close>

theorem not_found_throws_on_host_header:
  "normalize deno (pathname (url (GET_with_host ''a b'' ''0.0.0.0'' ''/path'')))
     = pathname (url (GET_with_host ''a b'' ''0.0.0.0'' ''/path''))
   \<and> routeMap new_Router = Map.empty
   \<and> orderedRoutes new_Router = []
   \<and> \<not> shouldRedirect new_Router ''0.0.0.0'' ''/path''
   \<and> \<not> shouldRedirect new_Router ''a b'' ''/path''
   \<and> handler deno (GET_with_host ''a b'' ''0.0.0.0'' ''/path'') mockConnInfo new_Router
       = (Inl (TypeError ''Invalid URL''), new_Router)"
proof -
  have "handler deno (GET_with_host ''a b'' ''0.0.0.0'' ''/path'') mockConnInfo new_Router
       = (Inl (TypeError ''Invalid URL''), new_Router)"
    by (rule getHandler_throws[OF getHostname_rejected])
  then show ?thesis
    by (simp add: GET_with_host_def http_url_def deno_def normalize_path new_Router_def
        shouldRedirect_def Let_def)
qed

subsection \<open>Dispatch: redirect to the normalised path\<close>

text \<open>
  Where \<open>_getHostname\<close> returns a host name, the redirect to the normalised path is sent
  as documented, the query string and the fragment of the URL kept.
\<close>

lemma normalization_redirect:
  assumes "getHostname P (headers req) (url req) = Inr host"
      and "path = normalize P (pathname (url req))"
      and "\<not> shouldRedirect r host path"
      and "path \<noteq> pathname (url req)"
  shows "handler P req conn r =
     (Inr (Response None 301 [(''location'', href ((url req)\<lparr>pathname := path\<rparr>))]), r)
     \<and> href ((url req)\<lparr>pathname := path\<rparr>) =
         protocol (url req) @ ''//'' @ hostname (url req)
           @ (if port (url req) = [] then [] else '':'' @ port (url req))
           @ path @ query_fragment (url req)"
proof -
  from getHandler_cases[OF assms(1), of r] assms(2,3,4)
  have "getHandler P r req =
      Inr (redirectHandler ((url req)\<lparr>pathname := path\<rparr>) Status_MovedPermanently)"
    by (simp add: Let_def)
  then show ?thesis
    by (simp add: handler_def redirectHandler_def Status_MovedPermanently_def href_pathname)
qed

lemma normalization_redirect_example:
  "handler deno (GET ''0.0.0.0'' ''/path//'') mockConnInfo
     (snd (handle_all [(''/path/'', respond ''/path/'')] new_Router))
   = (Inr (Response None 301 [(''location'', ''http://0.0.0.0:4505/path/?qs=test#hash'')]),
      snd (handle_all [(''/path/'', respond ''/path/'')] new_Router))"
proof -
  let ?r = "\<lparr>routeMap = [''/path/'' \<mapsto> respond ''/path/''],
               orderedRoutes = [''/path/''], hosts = False\<rparr>"
  let ?req = "GET ''0.0.0.0'' ''/path//''"
  have host: "getHostname deno (headers ?req) (url ?req) = Inr ''0.0.0.0''"
    by (simp add: getHostname_def GET_def http_url_def)
  have path: "''/path/'' = normalize deno (pathname (url ?req))"
    by (simp add: deno_def GET_def http_url_def normalize_path_slashes)
  have nored: "\<not> shouldRedirect ?r ''0.0.0.0'' ''/path/''"
    by (simp add: shouldRedirect_def Let_def)
  have diff: "''/path/'' \<noteq> pathname (url ?req)"
    by (simp add: GET_def http_url_def)
  from normalization_redirect[OF host path nored diff, of mockConnInfo]
  show ?thesis
    unfolding path_only by (simp add: GET_def http_url_def href_def query_fragment_def)
qed

text \<open>
  Claim C7. A request that needs no trailing-slash redirect and whose normalised path
  differs from its raw path is meant to get the 301 to the normalised path. It does not
  when its Host header is one the URL constructor rejects: with \<open>/path/\<close> registered (so
  that no host name makes the trailing-slash redirect due), the request for \<open>/path//\<close>
  with the Host header \<open>a b\<close> makes \<open>_getHostname\<close> throw a TypeError before the path is
  looked at.
\<close>

theorem normalization_redirect_throws_on_host_header:
  "normalize deno (pathname (url (GET_with_host ''a b'' ''0.0.0.0'' ''/path//''))) = ''/path/''
   \<and> pathname (url (GET_with_host ''a b'' ''0.0.0.0'' ''/path//'')) = ''/path//''
   \<and> routeMap (snd (handle_all [(''/path/'', respond ''/path/'')] new_Router)) ''/path/''
       = Some (respond ''/path/'')
   \<and> \<not> shouldRedirect (snd (handle_all [(''/path/'', respond ''/path/'')] new_Router))
         ''0.0.0.0'' ''/path/''
   \<and> \<not> shouldRedirect (snd (handle_all [(''/path/'', respond ''/path/'')] new_Router))
         ''a b'' ''/path/''
   \<and> handler deno (GET_with_host ''a b'' ''0.0.0.0'' ''/path//'') mockConnInfo
         (snd (handle_all [(''/path/'', respond ''/path/'')] new_Router))
       = (Inl (TypeError ''Invalid URL''),
          snd (handle_all [(''/path/'', respond ''/path/'')] new_Router))"
proof -
  let ?r = "\<lparr>routeMap = [''/path/'' \<mapsto> respond ''/path/''],
               orderedRoutes = [''/path/''], hosts = False\<rparr>"
  have "handler deno (GET_with_host ''a b'' ''0.0.0.0'' ''/path//'') mockConnInfo ?r
       = (Inl (TypeError ''Invalid URL''), ?r)"
    by (rule getHandler_throws[OF getHostname_rejected])
  then show ?thesis
    unfolding path_only
    by (simp add: GET_with_host_def http_url_def deno_def normalize_path_slashes
        shouldRedirect_def Let_def)
qed

subsection \<open>Dispatch: errors\<close>

text \<open>
  Where the Host header is absent, empty, or accepted by the URL constructor, dispatch
  throws nothing: it answers with the response of the one handler that \<open>#getHandler\<close>
  resolves, which is the trailing-slash redirect, the redirect to the normalised path,
  or what \<open>#matchHandler\<close> finds for the host name and the path.
\<close>

lemma dispatch_when_host_parses:
  assumes "headers req ''host'' = None \<or> headers req ''host'' = Some []
           \<or> (\<exists>hostHeader h. headers req ''host'' = Some hostHeader
                 \<and> URL_hostname P (''proto://'' @ hostHeader) = Some h)"
  shows "\<exists>host. getHostname P (headers req) (url req) = Inr host
           \<and> handler P req conn r =
               (Inr ((let path = normalize P (pathname (url req)) in
                      if shouldRedirect r host path
                      then redirectHandler ((url req)\<lparr>pathname := path @ ''/''\<rparr>)
                             Status_MovedPermanently
                      else if path \<noteq> pathname (url req)
                      then redirectHandler ((url req)\<lparr>pathname := path\<rparr>) Status_MovedPermanently
                      else matchHandler r host path) req conn), r)"
proof -
  from assms have "\<exists>host. getHostname P (headers req) (url req) = Inr host"
    by (auto simp: getHostname_def)
  then obtain host where host: "getHostname P (headers req) (url req) = Inr host" ..
  from getHandler_cases[OF host, of r] have "handler P req conn r =
               (Inr ((let path = normalize P (pathname (url req)) in
                      if shouldRedirect r host path
                      then redirectHandler ((url req)\<lparr>pathname := path @ ''/''\<rparr>)
                             Status_MovedPermanently
                      else if path \<noteq> pathname (url req)
                      then redirectHandler ((url req)\<lparr>pathname := path\<rparr>) Status_MovedPermanently
                      else matchHandler r host path) req conn), r)"
    by (simp add: handler_def)
  with host show ?thesis by blast
qed

lemma ipv6_routes:
  "handle_all [(''/'', respond ''/''), (''[::1]/'', respond ''[::1]/'')] new_Router =
     (Inr (), \<lparr>routeMap = [''/'' \<mapsto> respond ''/'', ''[::1]/'' \<mapsto> respond ''[::1]/''],
               orderedRoutes = [''[::1]/'', ''/''], hosts = True\<rparr>)"
  by (simp add: handle_def new_Router_def at_last_def at_first_def splice_insert_def Let_def)

lemma dispatch_host_header_example:
  "handler deno (GET_with_host ''[0:0::1]:8080'' ''0.0.0.0'' ''/x'') mockConnInfo
     (snd (handle_all [(''/'', respond ''/''), (''[::1]/'', respond ''[::1]/'')] new_Router))
   = (Inr (Response (Some ''[::1]/'') 200 []),
      snd (handle_all [(''/'', respond ''/''), (''[::1]/'', respond ''[::1]/'')] new_Router))"
  unfolding ipv6_routes
  by (simp add: handler_def getHandler_def getHostname_def GET_with_host_def http_url_def deno_def
      host_header_ipv6 posix_normalize_def join_slash_def at_first_def
      shouldRedirect_def matchHandler_def match_def startsWith_def respond_def
      at_last_def Let_def)

text \<open>
  Claim C8. Dispatch is meant never to throw for routing reasons, whatever the Host
  header, and to resolve to the matched handler's result, a redirect or the 404. It
  throws when the Host header is one the URL constructor rejects: with \<open>/\<close> registered,
  which matches every path, the request for \<open>/x\<close> with the Host header \<open>a b\<close> (a space is
  a forbidden host code point) gets no response: the TypeError of
  \<^verbatim>\<open>new URL("proto://a b")\<close> leaves \<open>_getHostname\<close> and \<open>Router.handler\<close> uncaught.
\<close>

theorem dispatch_throws_on_host_header:
  "URL_hostname deno (''proto://'' @ ''a b'') = None
   \<and> match (snd (handle_all [(''/'', respond ''/'')] new_Router)) ''/x'' = Some (respond ''/'')
   \<and> handler deno (GET_with_host ''a b'' ''0.0.0.0'' ''/x'') mockConnInfo
        (snd (handle_all [(''/'', respond ''/'')] new_Router))
      = (Inl (TypeError ''Invalid URL''), snd (handle_all [(''/'', respond ''/'')] new_Router))"
proof -
  have root: "handle_all [(''/'', respond ''/'')] new_Router =
     (Inr (), \<lparr>routeMap = [''/'' \<mapsto> respond ''/''], orderedRoutes = [''/''], hosts = False\<rparr>)"
    by (simp add: handle_def new_Router_def at_last_def at_first_def splice_insert_def Let_def)
  have "handler deno (GET_with_host ''a b'' ''0.0.0.0'' ''/x'') mockConnInfo
          \<lparr>routeMap = [''/'' \<mapsto> respond ''/''], orderedRoutes = [''/''], hosts = False\<rparr>
      = (Inl (TypeError ''Invalid URL''),
         \<lparr>routeMap = [''/'' \<mapsto> respond ''/''], orderedRoutes = [''/''], hosts = False\<rparr>)"
    by (rule getHandler_throws[OF getHostname_rejected])
  then show ?thesis
    unfolding root
    by (simp add: deno_def host_header_rejected match_def startsWith_def)
qed

subsection \<open>Dispatch reads the router only\<close>

text \<open>
  Claim C9. Dispatch leaves the route map, the subtree list and the hosts flag as they
  were, and a second dispatch of the same request on the router left by the first gives
  the same result.
\<close>

theorem dispatch_is_read_only:
  "snd (handler P req conn r) = r
   \<and> routeMap (snd (handler P req conn r)) = routeMap r
   \<and> orderedRoutes (snd (handler P req conn r)) = orderedRoutes r
   \<and> hosts (snd (handler P req conn r)) = hosts r
   \<and> (case handler P req conn r of
         (first, r1) \<Rightarrow>
           (case handler P req conn r1 of (second, r2) \<Rightarrow> second = first \<and> r2 = r))"
proof -
  have "snd (handler P req conn r) = r"
    by (simp add: handler_def split: sum.splits)
  then show ?thesis by (simp add: case_prod_unfold)
qed

end
